theory Spec2Isabelle
  imports Complex_Main "HOL-Library.Word"
begin

section \<open>The LHD ranker of webcachesim\<close>

text \<open>
  A shallow embedding of the LHD replacement policy (\<open>LHD::LHD\<close>, \<open>rank\<close>, \<open>update\<close>,
  \<open>replaced\<close>, \<open>reconfigure\<close>, \<open>updateClass\<close>, \<open>modelHitDensity\<close> and
  \<open>adaptAgeCoarsening\<close>). The class declaration (\<open>lhd.hpp\<close>), the generator (\<open>rand.hpp\<close>)
  and the cache (\<open>cache.hpp\<close>) are not part of the sources at hand: the build constants
  are fields of a configuration record, the helpers \<open>getAge\<close>, \<open>getClass\<close> and
  \<open>getHitDensity\<close> follow the specification, and the number of objects the cache reports
  is an argument of \<open>update\<close>.

  Vectors are lists. The code indexes them unchecked; in the model a write beyond the end
  changes nothing and a read there has no specified value. In the reachable states of a
  configuration with \<open>MAX_AGE > 0\<close>, \<open>APP_CLASSES > 0\<close> and hit-age classes below
  \<open>HIT_AGE_CLASSES\<close>, every class and age the code computes from a resident tag is
  inside the vectors (lemma \<open>reachable_in_range\<close>).

  \<open>rank_t\<close> is a floating-point type; it is modelled by the reals, so the theorems are
  about the arithmetic the code intends and not about rounding. Timestamps are unsigned
  64-bit words. Counters that only grow and indices into vectors are natural numbers.
\<close>

subsection \<open>Data\<close>

text \<open>
  \<open>Tag\<close> and \<open>Class\<close> have the fields the code reads and writes; of a request the code
  uses \<open>appId\<close> and \<open>size()\<close>. The fields \<open>timestamp\<close>, \<open>id\<close> and \<open>size\<close> of a tag
  are \<open>tag_timestamp\<close>, \<open>tag_id\<close> and \<open>tag_size\<close> here.
\<close>

type_synonym candidate_t = nat
type_synonym age_t = nat
type_synonym timestamp_t = "64 word"
type_synonym rank_t = real

record Request =
  appId :: nat
  req_size :: nat

record Tag =
  tag_timestamp :: timestamp_t
  lastHitAge :: age_t
  lastLastHitAge :: age_t
  app :: nat
  tag_id :: candidate_t
  tag_size :: nat

record Class =
  hits :: "rank_t list"
  evictions :: "rank_t list"
  totalHits :: rank_t
  totalEvictions :: rank_t
  hitDensities :: "rank_t list"

record LHD =
  tags :: "Tag list"
  indices :: "candidate_t \<rightharpoonup> nat"
  classes :: "Class list"
  timestamp :: timestamp_t
  ageCoarseningShift :: nat
  nextReconfiguration :: timestamp_t
  numReconfigurations :: nat
  overflows :: nat
  ewmaNumObjects :: rank_t
  ewmaNumObjectsMass :: rank_t
  rand :: nat

text \<open>
  The constants of \<open>lhd.hpp\<close>. \<open>hitAgeClass\<close> is the mapping from a tag's last two hit ages
  to its hit-age class, \<open>RANK_MAX\<close> is \<open>std::numeric_limits<rank_t>::max()\<close>, and
  \<open>rand_out n\<close> is the value of the \<open>n\<close>-th call of \<open>rand.next()\<close> (the generator is
  deterministic, so its state is the number of draws made so far, the field \<open>rand\<close>).
\<close>

record config =
  MAX_AGE :: nat
  APP_CLASSES :: nat
  HIT_AGE_CLASSES :: nat
  ACCS_PER_RECONFIGURATION :: timestamp_t
  EWMA_DECAY :: rank_t
  AGE_COARSENING_ERROR_TOLERANCE :: rank_t
  ASSOCIATIVITY :: nat
  RANK_MAX :: rank_t
  hitAgeClass :: "Tag \<Rightarrow> nat"
  rand_out :: "nat \<Rightarrow> nat"

definition NUM_CLASSES :: "config \<Rightarrow> nat" where
  "NUM_CLASSES cfg = APP_CLASSES cfg * HIT_AGE_CLASSES cfg"

text \<open>
  The ways a call does not return. \<open>Empty\<close> is the integer modulo by \<open>tags.size() = 0\<close> in
  \<open>rank\<close>; \<open>Unknown\<close> is the failed \<open>assert(itr != indices.end())\<close> of \<open>replaced\<close>;
  \<open>Mismatch\<close> is a failed \<open>assert(tag.id == id)\<close>; \<open>NoVictim\<close> is the failed
  \<open>assert(victim != (uint64_t)-1)\<close>; \<open>BadShift\<close> is a shift whose count C++ leaves
  undefined (\<open>1 << 31\<close> on an \<open>int\<close>, a negative count). A failure carries the state in
  which it happened.
\<close>

datatype error = Empty | Unknown | Mismatch | NoVictim | BadShift

type_synonym 'a result = "(error \<times> LHD) + 'a"

subsection \<open>Construction\<close>

definition init_class :: "config \<Rightarrow> nat \<Rightarrow> Class" where
  "init_class cfg c =
     \<lparr>hits = replicate (MAX_AGE cfg) 0,
      evictions = replicate (MAX_AGE cfg) 0,
      totalHits = 0,
      totalEvictions = 0,
      hitDensities = map (\<lambda>a. real (c + 1) / real (a + 1)) [0..<MAX_AGE cfg]\<rparr>"

text \<open>
  The constructor fills the classes and sets \<open>nextReconfiguration\<close>. Modelled from the
  spec: the initial values of the other fields are member initialisers of \<open>lhd.hpp\<close>; the
  coarsening shift starts at 0, and so do the clock, the counters and the two averages.
\<close>

definition LHD_init :: "config \<Rightarrow> LHD" where
  "LHD_init cfg =
     \<lparr>tags = [],
      indices = Map.empty,
      classes = map (init_class cfg) [0..<NUM_CLASSES cfg],
      timestamp = 0,
      ageCoarseningShift = 0,
      nextReconfiguration = ACCS_PER_RECONFIGURATION cfg,
      numReconfigurations = 0,
      overflows = 0,
      ewmaNumObjects = 0,
      ewmaNumObjectsMass = 0,
      rand = 0\<rparr>"

subsection \<open>Age, class and hit density of a tag\<close>

text \<open>
  Modelled from the spec: \<open>getAge\<close>, \<open>getClass\<close> and \<open>getHitDensity\<close> are defined in
  \<open>lhd.hpp\<close>. The age is the coarsened clock minus the tag's stored timestamp, clamped to
  \<open>MAX_AGE - 1\<close> with \<open>overflows\<close> counted; the class is
  \<open>tag.app * HIT_AGE_CLASSES + hitAgeClass(tag)\<close>; the density is the class's
  \<open>hitDensities[age]\<close> divided by \<open>max(1, tag.size)\<close>.
\<close>

definition getAge :: "config \<Rightarrow> LHD \<Rightarrow> Tag \<Rightarrow> age_t \<times> LHD" where
  "getAge cfg s tag =
     (let age = unat (drop_bit (ageCoarseningShift s) (timestamp s) - tag_timestamp tag)
      in if age \<ge> MAX_AGE cfg
         then (MAX_AGE cfg - 1, s\<lparr>overflows := overflows s + 1\<rparr>)
         else (age, s))"

definition getClassId :: "config \<Rightarrow> Tag \<Rightarrow> nat" where
  "getClassId cfg tag = app tag * HIT_AGE_CLASSES cfg + hitAgeClass cfg tag"

definition getHitDensity :: "config \<Rightarrow> LHD \<Rightarrow> Tag \<Rightarrow> rank_t \<times> LHD" where
  "getHitDensity cfg s tag =
     (let (age, s1) = getAge cfg s tag;
          cl = classes s1 ! getClassId cfg tag
      in (hitDensities cl ! age / real (max 1 (tag_size tag)), s1))"

subsection \<open>rank\<close>

text \<open>
  The sampling loop of \<open>rank\<close>, counted down by the number of candidates left. The victim
  is \<open>None\<close> while the source holds \<open>(uint64_t)-1\<close>. \<open>rand.next()\<close> is evaluated before
  the modulo by \<open>tags.size()\<close>.
\<close>

fun rank_loop :: "config \<Rightarrow> nat \<Rightarrow> nat option \<Rightarrow> rank_t \<Rightarrow> LHD \<Rightarrow> (nat option \<times> LHD) result" where
  "rank_loop cfg 0 victim victimRank s = Inr (victim, s)"
| "rank_loop cfg (Suc n) victim victimRank s =
     (let r = rand_out cfg (rand s);
          s1 = s\<lparr>rand := Suc (rand s)\<rparr>
      in if tags s1 = [] then Inl (Empty, s1)
         else
           let idx = r mod length (tags s1);
               (rk, s2) = getHitDensity cfg s1 (tags s1 ! idx)
           in if rk < victimRank then rank_loop cfg n (Some idx) rk s2
              else rank_loop cfg n victim victimRank s2)"

definition rank :: "config \<Rightarrow> LHD \<Rightarrow> (candidate_t \<times> LHD) result" where
  "rank cfg s =
     (let candidates = (if numReconfigurations s > 50 then ASSOCIATIVITY cfg else 8)
      in case rank_loop cfg candidates None (RANK_MAX cfg) s of
           Inl e \<Rightarrow> Inl e
         | Inr (None, s') \<Rightarrow> Inl (NoVictim, s')
         | Inr (Some victim, s') \<Rightarrow> Inr (tag_id (tags s' ! victim), s'))"

subsection \<open>Reconfiguration\<close>

text \<open>The body of the loop of \<open>updateClass\<close>, for one age.\<close>

definition decay_bin :: "config \<Rightarrow> age_t \<Rightarrow> Class \<Rightarrow> Class" where
  "decay_bin cfg age cl =
     (let h = hits cl ! age * EWMA_DECAY cfg;
          e = evictions cl ! age * EWMA_DECAY cfg
      in cl\<lparr>hits := (hits cl)[age := h],
            evictions := (evictions cl)[age := e],
            totalHits := totalHits cl + h,
            totalEvictions := totalEvictions cl + e\<rparr>)"

definition updateClass :: "config \<Rightarrow> Class \<Rightarrow> Class" where
  "updateClass cfg cl =
     fold (decay_bin cfg) [0..<MAX_AGE cfg] (cl\<lparr>totalHits := 0, totalEvictions := 0\<rparr>)"

text \<open>
  One step of the reverse sweep of \<open>modelHitDensity\<close>: the running \<open>totalHits\<close>,
  \<open>totalEvents\<close>, \<open>lifetimeUnconditioned\<close> and the density vector.
\<close>

definition density_step ::
  "rank_t list \<Rightarrow> rank_t list \<Rightarrow> age_t \<Rightarrow> rank_t \<times> rank_t \<times> rank_t \<times> rank_t list
     \<Rightarrow> rank_t \<times> rank_t \<times> rank_t \<times> rank_t list" where
  "density_step hs es a st =
     (case st of (totalHits0, totalEvents0, lifetime0, ds) \<Rightarrow>
        let totalHits1 = totalHits0 + hs ! a;
            totalEvents1 = totalEvents0 + (hs ! a + es ! a);
            lifetime1 = lifetime0 + totalEvents1
        in (totalHits1, totalEvents1, lifetime1,
            ds[a := (if totalEvents1 > 1 / 100000 then totalHits1 / lifetime1 else 0)]))"

definition density_sweep ::
  "nat \<Rightarrow> rank_t list \<Rightarrow> rank_t list \<Rightarrow> rank_t list \<Rightarrow> rank_t \<times> rank_t \<times> rank_t \<times> rank_t list" where
  "density_sweep m hs es ds =
     fold (density_step hs es) (rev [0..<m - 1])
       (hs ! (m - 1), hs ! (m - 1) + es ! (m - 1), hs ! (m - 1) + es ! (m - 1), ds)"

definition modelClass :: "config \<Rightarrow> Class \<Rightarrow> Class" where
  "modelClass cfg cl =
     cl\<lparr>hitDensities :=
          snd (snd (snd (density_sweep (MAX_AGE cfg) (hits cl) (evictions cl) (hitDensities cl))))\<rparr>"

definition modelHitDensity :: "config \<Rightarrow> LHD \<Rightarrow> LHD" where
  "modelHitDensity cfg s = s\<lparr>classes := map (modelClass cfg) (classes s)\<rparr>"

text \<open>
  The loop \<open>while ((1 << l) < optimal) l += 1\<close>. \<open>1 << l\<close> is an \<open>int\<close>: for \<open>l \<ge> 31\<close>
  the shift is undefined, and the loop has no value.
\<close>

function coarseningLog2 :: "rank_t \<Rightarrow> nat \<Rightarrow> nat option" where
  "coarseningLog2 optimal l =
     (if l \<ge> 31 then None
      else if 2 ^ l < optimal then coarseningLog2 optimal (l + 1)
      else Some l)"
  by pat_completeness auto
termination
  by (relation "measure (\<lambda>(optimal, l). 31 - l)") auto

declare coarseningLog2.simps [simp del]

text \<open>The stretch branch (\<open>delta < 0\<close>) for one class, with \<open>k = -delta\<close>.\<close>

definition stretchClass :: "config \<Rightarrow> nat \<Rightarrow> Class \<Rightarrow> Class" where
  "stretchClass cfg k cl =
     (let m = MAX_AGE cfg;
          cl1 = fold (\<lambda>a cl.
                   cl\<lparr>hits := (hits cl)[m - 1 := hits cl ! (m - 1) + hits cl ! a],
                      evictions := (evictions cl)[m - 1 := evictions cl ! (m - 1) + evictions cl ! a]\<rparr>)
                 [drop_bit k m..<m - 1] cl
      in fold (\<lambda>a cl.
                 cl\<lparr>hits := (hits cl)[a := hits cl ! (drop_bit k a) / 2 ^ k],
                    evictions := (evictions cl)[a := evictions cl ! (drop_bit k a) / 2 ^ k]\<rparr>)
           (rev [0..<m - 1]) cl1)"

text \<open>The compress branch (\<open>delta > 0\<close>) for one class, with \<open>k = delta\<close>.\<close>

definition compressClass :: "config \<Rightarrow> nat \<Rightarrow> Class \<Rightarrow> Class" where
  "compressClass cfg k cl =
     (let m = MAX_AGE cfg;
          cl1 = fold (\<lambda>a cl.
                   let cl0 = cl\<lparr>hits := (hits cl)[a := hits cl ! (push_bit k a)],
                                evictions := (evictions cl)[a := evictions cl ! (push_bit k a)]\<rparr>
                   in fold (\<lambda>i cl.
                              cl\<lparr>hits := (hits cl)[a := hits cl ! a + hits cl ! (push_bit k a + i)],
                                 evictions := (evictions cl)[a := evictions cl ! a
                                                                + evictions cl ! (push_bit k a + i)]\<rparr>)
                        [1..<2 ^ k] cl0)
                 [0..<drop_bit k m] cl
      in fold (\<lambda>a cl. cl\<lparr>hits := (hits cl)[a := 0], evictions := (evictions cl)[a := 0]\<rparr>)
           [drop_bit k m..<m - 1] cl1)"

text \<open>
  \<open>adaptAgeCoarsening\<close>; \<open>numObjects\<close> is what \<open>cache->getNumObjects()\<close> returns.
  \<open>ewma_update\<close> is the update of the two moving averages at its head and
  \<open>optimalAgeCoarsening\<close> the local of that name.
  \<open>tag.timestamp >>= delta\<close> is executed once per tag: with a negative \<open>delta\<close> and a
  resident tag the shift count is negative.
\<close>

definition ewma_update :: "config \<Rightarrow> nat \<Rightarrow> LHD \<Rightarrow> LHD" where
  "ewma_update cfg numObjects s =
     s\<lparr>ewmaNumObjects := ewmaNumObjects s * EWMA_DECAY cfg + real numObjects,
       ewmaNumObjectsMass := ewmaNumObjectsMass s * EWMA_DECAY cfg + 1\<rparr>"

definition optimalAgeCoarsening :: "config \<Rightarrow> LHD \<Rightarrow> rank_t" where
  "optimalAgeCoarsening cfg s =
     (ewmaNumObjects s / ewmaNumObjectsMass s)
       / (AGE_COARSENING_ERROR_TOLERANCE cfg * real (MAX_AGE cfg))"

definition adaptAgeCoarsening :: "config \<Rightarrow> nat \<Rightarrow> LHD \<Rightarrow> LHD result" where
  "adaptAgeCoarsening cfg numObjects s =
     (let s1 = ewma_update cfg numObjects s
      in if numReconfigurations s1 = 5 \<or> numReconfigurations s1 = 25 then
           (case coarseningLog2 (optimalAgeCoarsening cfg s1) 1 of
              None \<Rightarrow> Inl (BadShift, s1)
            | Some optimalAgeCoarseningLog2 \<Rightarrow>
                let delta = int optimalAgeCoarseningLog2 - int (ageCoarseningShift s1);
                    s2 = s1\<lparr>ageCoarseningShift := optimalAgeCoarseningLog2,
                            ewmaNumObjects := ewmaNumObjects s1 * 8,
                            ewmaNumObjectsMass := ewmaNumObjectsMass s1 * 8\<rparr>;
                    s3 = (if delta < 0
                          then s2\<lparr>classes := map (stretchClass cfg (nat (- delta))) (classes s2)\<rparr>
                          else if delta > 0
                          then s2\<lparr>classes := map (compressClass cfg (nat delta)) (classes s2)\<rparr>
                          else s2)
                in if delta \<noteq> 0 then
                     (if delta < 0 \<and> tags s3 \<noteq> [] then Inl (BadShift, s3)
                      else Inr (s3\<lparr>tags := map (\<lambda>tag. tag\<lparr>tag_timestamp :=
                                                    drop_bit (nat delta) (tag_timestamp tag)\<rparr>)
                                              (tags s3)\<rparr>))
                   else Inr s3)
         else Inr s1)"

text \<open>
  \<open>reconfigure\<close>. The local totals only feed a commented-out \<open>printf\<close>, and
  \<open>dumpClassRanks\<close> writes to local variables only, so neither appears here.
\<close>

definition reconfigure :: "config \<Rightarrow> nat \<Rightarrow> LHD \<Rightarrow> LHD result" where
  "reconfigure cfg numObjects s =
     (let s1 = s\<lparr>classes := map (updateClass cfg) (classes s)\<rparr>
      in case adaptAgeCoarsening cfg numObjects s1 of
           Inl e \<Rightarrow> Inl e
         | Inr s2 \<Rightarrow> Inr ((modelHitDensity cfg s2)\<lparr>overflows := 0\<rparr>))"

subsection \<open>update\<close>

text \<open>
  The first half of \<open>update\<close>: the tag is appended, or the hit is recorded. The result is
  the position of the tag and the state.
\<close>

definition update_tag :: "config \<Rightarrow> candidate_t \<Rightarrow> LHD \<Rightarrow> (nat \<times> LHD) result" where
  "update_tag cfg cid s =
     (case indices s cid of
        None \<Rightarrow>
          Inr (length (tags s),
               s\<lparr>tags := tags s @ [\<lparr>tag_timestamp = 0, lastHitAge = 0,
                                     lastLastHitAge = MAX_AGE cfg, app = 0,
                                     tag_id = cid, tag_size = 0\<rparr>],
                 indices := (indices s)(cid \<mapsto> length (tags s))\<rparr>)
      | Some pos \<Rightarrow>
          let tag = tags s ! pos
          in if tag_id tag \<noteq> cid then Inl (Mismatch, s)
             else
               let (age, s1) = getAge cfg s tag;
                   c = getClassId cfg tag;
                   cl = classes s1 ! c;
                   s2 = s1\<lparr>classes := (classes s1)[c := cl\<lparr>hits := (hits cl)[age := hits cl ! age + 1]\<rparr>]\<rparr>
               in Inr (pos, s2\<lparr>tags := (tags s2)[pos := tag\<lparr>lastLastHitAge := lastHitAge tag,
                                                              lastHitAge := age\<rparr>]\<rparr>))"

definition update :: "config \<Rightarrow> nat \<Rightarrow> candidate_t \<Rightarrow> Request \<Rightarrow> LHD \<Rightarrow> LHD result" where
  "update cfg numObjects cid req s =
     (case update_tag cfg cid s of
        Inl e \<Rightarrow> Inl e
      | Inr (pos, s3) \<Rightarrow>
          let coarsenedTimestamp = drop_bit (ageCoarseningShift s3) (timestamp s3);
              s4 = s3\<lparr>tags := (tags s3)[pos := (tags s3 ! pos)
                                 \<lparr>tag_timestamp := coarsenedTimestamp,
                                  app := appId req mod APP_CLASSES cfg,
                                  tag_size := req_size req\<rparr>]\<rparr>;
              s5 = s4\<lparr>rand := Suc (rand s4),
                      timestamp := timestamp s4 + 1,
                      nextReconfiguration := nextReconfiguration s4 - 1\<rparr>
          in if nextReconfiguration s5 = 0 then
               (case reconfigure cfg numObjects s5 of
                  Inl e \<Rightarrow> Inl e
                | Inr s6 \<Rightarrow>
                    Inr (s6\<lparr>nextReconfiguration := ACCS_PER_RECONFIGURATION cfg,
                            numReconfigurations := Suc (numReconfigurations s6)\<rparr>))
             else Inr s5)"

subsection \<open>replaced\<close>

definition replaced :: "config \<Rightarrow> candidate_t \<Rightarrow> LHD \<Rightarrow> LHD result" where
  "replaced cfg cid s =
     (case indices s cid of
        None \<Rightarrow> Inl (Unknown, s)
      | Some index \<Rightarrow>
          let tag = tags s ! index
          in if tag_id tag \<noteq> cid then Inl (Mismatch, s)
             else
               let (age, s1) = getAge cfg s tag;
                   c = getClassId cfg tag;
                   cl = classes s1 ! c;
                   s2 = s1\<lparr>classes := (classes s1)[c := cl\<lparr>evictions :=
                                           (evictions cl)[age := evictions cl ! age + 1]\<rparr>]\<rparr>;
                   s3 = s2\<lparr>indices := (indices s2)(cid := None),
                           tags := butlast ((tags s2)[index := last (tags s2)])\<rparr>
               in if index < length (tags s3)
                  then Inr (s3\<lparr>indices := (indices s3)(tag_id (tags s3 ! index) \<mapsto> index)\<rparr>)
                  else Inr s3)"

subsection \<open>Call sequences\<close>

text \<open>The states a sequence of calls can bring a fresh ranker into; every call returns.\<close>

inductive reachable :: "config \<Rightarrow> LHD \<Rightarrow> bool" for cfg :: config where
  fresh: "reachable cfg (LHD_init cfg)"
| after_update:
    "reachable cfg s \<Longrightarrow> update cfg numObjects cid req s = Inr s' \<Longrightarrow> reachable cfg s'"
| after_replaced:
    "reachable cfg s \<Longrightarrow> replaced cfg cid s = Inr s' \<Longrightarrow> reachable cfg s'"
| after_rank:
    "reachable cfg s \<Longrightarrow> rank cfg s = Inr (victim, s') \<Longrightarrow> reachable cfg s'"

text \<open>
  A sequence of \<open>update\<close> calls, each with the object count the cache reports and the id;
  every request has \<open>appId = 0\<close> and \<open>size = 1\<close>.
\<close>

definition unit_request :: Request where
  "unit_request = \<lparr>appId = 0, req_size = 1\<rparr>"

fun updates :: "config \<Rightarrow> (nat \<times> candidate_t) list \<Rightarrow> LHD \<Rightarrow> LHD result" where
  "updates cfg [] s = Inr s"
| "updates cfg ((numObjects, cid) # calls) s =
     (case update cfg numObjects cid unit_request s of
        Inl e \<Rightarrow> Inl e
      | Inr s' \<Rightarrow> updates cfg calls s')"

definition completed :: "'a result \<Rightarrow> bool" where
  "completed r = (case r of Inl e \<Rightarrow> False | Inr x \<Rightarrow> True)"

definition final :: "LHD result \<Rightarrow> LHD" where
  "final r = (case r of Inl (e, s) \<Rightarrow> s | Inr s \<Rightarrow> s)"

text \<open>Views of a state: one age across the classes, and the tags' timestamps.\<close>

definition hits_at :: "age_t \<Rightarrow> LHD \<Rightarrow> rank_t list" where
  "hits_at a s = map (\<lambda>cl. hits cl ! a) (classes s)"

definition tag_timestamps :: "LHD \<Rightarrow> timestamp_t list" where
  "tag_timestamps s = map tag_timestamp (tags s)"



subsection \<open>Two configurations\<close>

text \<open>
  The constants of scenario S3 (\<open>MAX_AGE = 8\<close>, a million accesses per reconfiguration)
  with two application classes and two hit-age classes: class 0 for a tag that was never
  hit (\<open>lastLastHitAge = MAX_AGE\<close>), class 1 otherwise.
\<close>

definition first_hit_class :: "Tag \<Rightarrow> nat" where
  "first_hit_class tag = (if lastLastHitAge tag \<ge> 8 then 0 else 1)"

definition cfg_S3 :: config where
  "cfg_S3 =
     \<lparr>MAX_AGE = 8, APP_CLASSES = 2, HIT_AGE_CLASSES = 2,
      ACCS_PER_RECONFIGURATION = 1000000, EWMA_DECAY = 9 / 10,
      AGE_COARSENING_ERROR_TOLERANCE = 1 / 100, ASSOCIATIVITY = 64, RANK_MAX = 2 ^ 128,
      hitAgeClass = first_hit_class,
      rand_out = (\<lambda>n. n)\<rparr>"

definition scenario_S3 :: "LHD result" where
  "scenario_S3 = updates cfg_S3 [(0, 1), (1, 2), (2, 1)] (LHD_init cfg_S3)"

text \<open>Scenario S3 before its third call.\<close>

definition scenario_S3_before :: "LHD result" where
  "scenario_S3_before = updates cfg_S3 [(0, 1), (1, 2)] (LHD_init cfg_S3)"

text \<open>A small ranker that reconfigures at every update: four ages, one class.\<close>

definition cfg_small :: config where
  "cfg_small =
     \<lparr>MAX_AGE = 4, APP_CLASSES = 1, HIT_AGE_CLASSES = 1,
      ACCS_PER_RECONFIGURATION = 1, EWMA_DECAY = 1 / 2,
      AGE_COARSENING_ERROR_TOLERANCE = 1, ASSOCIATIVITY = 64, RANK_MAX = 2 ^ 128,
      hitAgeClass = (\<lambda>tag. 0),
      rand_out = (\<lambda>n. n)\<rparr>"

definition trace5 :: "LHD result" where
  "trace5 = updates cfg_small [(0, 1), (1, 2), (2, 3), (3, 4), (4, 1)] (LHD_init cfg_small)"

definition trace6 :: "LHD result" where
  "trace6 = updates cfg_small [(4, 5)] (final trace5)"

subsection \<open>The density recurrence in closed form\<close>

text \<open>
  The running sums of the specification: \<open>H\<close>, \<open>E\<close> and \<open>L\<close> at age \<open>a\<close> of a histogram
  of \<open>m\<close> ages, and the density they define.
\<close>

definition sum_hits :: "rank_t list \<Rightarrow> nat \<Rightarrow> age_t \<Rightarrow> rank_t" where
  "sum_hits hs m a = sum_list (map (\<lambda>a'. hs ! a') [a..<m])"

definition sum_events :: "rank_t list \<Rightarrow> rank_t list \<Rightarrow> nat \<Rightarrow> age_t \<Rightarrow> rank_t" where
  "sum_events hs es m a = sum_list (map (\<lambda>a'. hs ! a' + es ! a') [a..<m])"

definition sum_lifetime :: "rank_t list \<Rightarrow> rank_t list \<Rightarrow> nat \<Rightarrow> age_t \<Rightarrow> rank_t" where
  "sum_lifetime hs es m a = sum_list (map (sum_events hs es m) [a..<m])"

definition spec_density :: "rank_t list \<Rightarrow> rank_t list \<Rightarrow> nat \<Rightarrow> age_t \<Rightarrow> rank_t" where
  "spec_density hs es m a =
     (if sum_events hs es m a > 1 / 100000
      then sum_hits hs m a / sum_lifetime hs es m a
      else 0)"

subsection \<open>Well-formed histograms\<close>



text \<open>The three vectors of a class have \<open>m\<close> entries.\<close>

definition shape_ok :: "nat \<Rightarrow> Class \<Rightarrow> bool" where
  "shape_ok m cl \<longleftrightarrow>
     length (hits cl) = m \<and> length (evictions cl) = m \<and> length (hitDensities cl) = m"

subsection \<open>The tag index\<close>



section \<open>Properties\<close>

subsection \<open>Failures of rank and replaced\<close>




text \<open>
  C2: for an id that is not in the index, \<open>replaced\<close> fails with \<open>Unknown\<close>, and the state
  in which it fails is the state it was called in: tags, index, histograms and counters
  are untouched.
\<close>

theorem replaced_unknown:
  assumes "indices s cid = None"
  shows "replaced cfg cid s = Inl (Unknown, s)"
  using assms by (simp add: replaced_def)

theorem replaced_unknown_witness:
  "indices (LHD_init cfg_S3) 7 = None
   \<and> replaced cfg_S3 7 (LHD_init cfg_S3) = Inl (Unknown, LHD_init cfg_S3)"
  using replaced_unknown [of "LHD_init cfg_S3" 7 cfg_S3] by (simp add: LHD_init_def)

subsection \<open>Lists and folds\<close>


lemma fold_keeps:
  assumes "\<And>x cl. g (f x cl) = g cl"
  shows "g (fold f xs cl) = g cl"
  by (induction xs arbitrary: cl) (simp_all add: assms)





subsection \<open>updateClass\<close>

lemma decay_bin_dens [simp]: "hitDensities (decay_bin cfg a cl) = hitDensities cl"
  by (simp add: decay_bin_def Let_def)

lemma updateClass_dens [simp]: "hitDensities (updateClass cfg cl) = hitDensities cl"
  unfolding updateClass_def
  by (rule trans [OF fold_keeps]) simp_all


subsection \<open>stretchClass\<close>

lemma stretchClass_dens [simp]: "hitDensities (stretchClass cfg k cl) = hitDensities cl"
  unfolding stretchClass_def Let_def
  by (rule trans [OF fold_keeps], simp, rule trans [OF fold_keeps], simp_all)


subsection \<open>compressClass\<close>

lemma compressClass_dens [simp]: "hitDensities (compressClass cfg k cl) = hitDensities cl"
  unfolding compressClass_def Let_def
  apply (rule trans [OF fold_keeps], simp)
  apply (rule trans [OF fold_keeps])
   apply (rule trans [OF fold_keeps], simp, simp)
  apply simp
  done



subsection \<open>The reverse sweep of modelHitDensity\<close>

text \<open>
  The running sums of the sweep are the closed sums of the histogram, and the sweep writes
  the densities of the ages below the last and nothing else.
\<close>

lemma sum_hits_rec: "k < m \<Longrightarrow> sum_hits hs m k = hs ! k + sum_hits hs m (Suc k)"
  by (simp add: sum_hits_def upt_conv_Cons)

lemma sum_events_rec:
  "k < m \<Longrightarrow> sum_events hs es m k = (hs ! k + es ! k) + sum_events hs es m (Suc k)"
  by (simp add: sum_events_def upt_conv_Cons)

lemma sum_lifetime_rec:
  "k < m \<Longrightarrow> sum_lifetime hs es m k = sum_events hs es m k + sum_lifetime hs es m (Suc k)"
  by (simp add: sum_lifetime_def upt_conv_Cons)

lemma sums_last:
  "sum_hits hs (Suc n) n = hs ! n"
  "sum_events hs es (Suc n) n = hs ! n + es ! n"
  "sum_lifetime hs es (Suc n) n = hs ! n + es ! n"
  by (simp_all add: sum_hits_def sum_events_def sum_lifetime_def)

lemma density_fold:
  assumes "k \<le> n"
  shows "\<exists>ds'. fold (density_step hs es) (rev [k..<n])
                 (sum_hits hs (Suc n) n, sum_events hs es (Suc n) n, sum_lifetime hs es (Suc n) n, ds)
               = (sum_hits hs (Suc n) k, sum_events hs es (Suc n) k, sum_lifetime hs es (Suc n) k, ds')
             \<and> length ds' = length ds
             \<and> (\<forall>a. k \<le> a \<and> a < n \<and> a < length ds \<longrightarrow> ds' ! a = spec_density hs es (Suc n) a)
             \<and> (\<forall>a. \<not> (k \<le> a \<and> a < n) \<longrightarrow> ds' ! a = ds ! a)"
  using assms
proof (induction "n - k" arbitrary: k)
  case 0
  then have "k = n" by simp
  then show ?case by simp
next
  case (Suc d)
  then have kn: "k < n" and d: "d = n - Suc k" and le: "Suc k \<le> n" by simp_all
  from Suc.hyps(1) [OF d le] obtain ds1 where
    f: "fold (density_step hs es) (rev [Suc k..<n])
          (sum_hits hs (Suc n) n, sum_events hs es (Suc n) n, sum_lifetime hs es (Suc n) n, ds)
        = (sum_hits hs (Suc n) (Suc k), sum_events hs es (Suc n) (Suc k),
           sum_lifetime hs es (Suc n) (Suc k), ds1)"
    and len: "length ds1 = length ds"
    and inside: "\<forall>a. Suc k \<le> a \<and> a < n \<and> a < length ds \<longrightarrow> ds1 ! a = spec_density hs es (Suc n) a"
    and outside: "\<forall>a. \<not> (Suc k \<le> a \<and> a < n) \<longrightarrow> ds1 ! a = ds ! a"
    by blast
  have split: "rev [k..<n] = rev [Suc k..<n] @ [k]"
    using kn by (simp add: upt_conv_Cons)
  have kS: "k < Suc n" using kn by simp
  let ?d = "if sum_events hs es (Suc n) k > 1 / 100000
            then sum_hits hs (Suc n) k / sum_lifetime hs es (Suc n) k else 0"
  have step: "fold (density_step hs es) (rev [k..<n])
          (sum_hits hs (Suc n) n, sum_events hs es (Suc n) n, sum_lifetime hs es (Suc n) n, ds)
        = (sum_hits hs (Suc n) k, sum_events hs es (Suc n) k, sum_lifetime hs es (Suc n) k,
           ds1[k := ?d])"
    unfolding split
    by (simp add: f density_step_def Let_def sum_hits_rec [OF kS] sum_events_rec [OF kS]
        sum_lifetime_rec [OF kS] add.commute)
  have "\<forall>a. k \<le> a \<and> a < n \<and> a < length ds \<longrightarrow> (ds1[k := ?d]) ! a = spec_density hs es (Suc n) a"
  proof (intro allI impI)
    fix a assume a: "k \<le> a \<and> a < n \<and> a < length ds"
    show "(ds1[k := ?d]) ! a = spec_density hs es (Suc n) a"
    proof (cases "a = k")
      case True
      then show ?thesis using a len by (simp add: spec_density_def)
    next
      case False
      then show ?thesis using a inside by simp
    qed
  qed
  moreover have "\<forall>a. \<not> (k \<le> a \<and> a < n) \<longrightarrow> (ds1[k := ?d]) ! a = ds ! a"
    using outside kn by (auto simp: nth_list_update)
  ultimately show ?case using step len by auto
qed

lemma density_sweep_result:
  assumes "0 < m"
  shows "\<exists>ds'. snd (snd (snd (density_sweep m hs es ds))) = ds'
             \<and> length ds' = length ds
             \<and> (\<forall>a. a < m - 1 \<and> a < length ds \<longrightarrow> ds' ! a = spec_density hs es m a)
             \<and> (\<forall>a. \<not> a < m - 1 \<longrightarrow> ds' ! a = ds ! a)"
proof -
  obtain n where m: "m = Suc n" using assms by (cases m) auto
  from density_fold [of 0 n hs es ds] obtain ds' where
    "fold (density_step hs es) (rev [0..<n])
       (sum_hits hs (Suc n) n, sum_events hs es (Suc n) n, sum_lifetime hs es (Suc n) n, ds)
     = (sum_hits hs (Suc n) 0, sum_events hs es (Suc n) 0, sum_lifetime hs es (Suc n) 0, ds')"
    and "length ds' = length ds"
    and "\<forall>a. 0 \<le> a \<and> a < n \<and> a < length ds \<longrightarrow> ds' ! a = spec_density hs es (Suc n) a"
    and "\<forall>a. \<not> (0 \<le> a \<and> a < n) \<longrightarrow> ds' ! a = ds ! a"
    by auto
  then show ?thesis
    unfolding m density_sweep_def by (simp add: sums_last)
qed

lemma modelClass_density:
  assumes "a + 1 < MAX_AGE cfg" and "a < length (hitDensities cl)"
  shows "hitDensities (modelClass cfg cl) ! a
         = spec_density (hits cl) (evictions cl) (MAX_AGE cfg) a"
  using density_sweep_result [of "MAX_AGE cfg" "hits cl" "evictions cl" "hitDensities cl"] assms
  by (auto simp: modelClass_def)


lemma modelClass_length:
  "length (hitDensities (modelClass cfg cl)) = length (hitDensities cl)"
proof (cases "0 < MAX_AGE cfg")
  case True
  from density_sweep_result [OF True, of "hits cl" "evictions cl" "hitDensities cl"]
  show ?thesis by (auto simp: modelClass_def)
next
  case False
  then show ?thesis by (simp add: modelClass_def density_sweep_def)
qed

lemma modelClass_bins [simp]:
  "hits (modelClass cfg cl) = hits cl" "evictions (modelClass cfg cl) = evictions cl"
  "totalHits (modelClass cfg cl) = totalHits cl" "totalEvictions (modelClass cfg cl) = totalEvictions cl"
  by (simp_all add: modelClass_def)

subsection \<open>The decay and the totals of updateClass\<close>



subsection \<open>What adaptAgeCoarsening and reconfigure change\<close>

lemma stretchClass_totals [simp]:
  "totalHits (stretchClass cfg k cl) = totalHits cl"
  "totalEvictions (stretchClass cfg k cl) = totalEvictions cl"
  unfolding stretchClass_def Let_def
  by (rule trans [OF fold_keeps], simp, rule trans [OF fold_keeps], simp_all)+

lemma compressClass_totals [simp]:
  "totalHits (compressClass cfg k cl) = totalHits cl"
  "totalEvictions (compressClass cfg k cl) = totalEvictions cl"
  unfolding compressClass_def Let_def
  by (rule trans [OF fold_keeps], simp, rule trans [OF fold_keeps],
      (rule trans [OF fold_keeps], simp, simp), simp)+

lemma adapt_cases:
  assumes "adaptAgeCoarsening cfg numObjects s = Inr s'"
  shows "(\<exists>k. classes s' = map (stretchClass cfg k) (classes s)
              \<and> ageCoarseningShift s' < ageCoarseningShift s)
         \<or> (\<exists>k. classes s' = map (compressClass cfg k) (classes s)
              \<and> ageCoarseningShift s < ageCoarseningShift s')
         \<or> (classes s' = classes s \<and> ageCoarseningShift s' = ageCoarseningShift s)"
  using assms
  by (auto simp: adaptAgeCoarsening_def ewma_update_def Let_def
           split: if_splits option.splits)

lemma adapt_frame:
  assumes "adaptAgeCoarsening cfg numObjects s = Inr s'"
  shows "indices s' = indices s" and "numReconfigurations s' = numReconfigurations s"
    and "map tag_id (tags s') = map tag_id (tags s)"
    and "map app (tags s') = map app (tags s)"
    and "timestamp s' = timestamp s" and "rand s' = rand s"
  using assms
  by (auto simp: adaptAgeCoarsening_def ewma_update_def Let_def comp_def
           split: if_splits option.splits)

lemma reconfigure_cases:
  assumes "reconfigure cfg numObjects s = Inr s'"
  shows "\<exists>f. classes s' = map (\<lambda>cl. modelClass cfg (f (updateClass cfg cl))) (classes s)
           \<and> ((\<exists>k. f = stretchClass cfg k \<and> ageCoarseningShift s' < ageCoarseningShift s)
              \<or> (\<exists>k. f = compressClass cfg k \<and> ageCoarseningShift s < ageCoarseningShift s')
              \<or> (f = (\<lambda>cl. cl) \<and> ageCoarseningShift s' = ageCoarseningShift s))"
proof -
  let ?s1 = "s\<lparr>classes := map (updateClass cfg) (classes s)\<rparr>"
  from assms obtain s2 where a: "adaptAgeCoarsening cfg numObjects ?s1 = Inr s2"
    and s': "s' = (modelHitDensity cfg s2)\<lparr>overflows := 0\<rparr>"
    by (auto simp: reconfigure_def Let_def split: sum.splits)
  from adapt_cases [OF a] show ?thesis
    by (auto simp: s' modelHitDensity_def comp_def)
qed

lemma reconfigure_frame:
  assumes "reconfigure cfg numObjects s = Inr s'"
  shows "indices s' = indices s" and "numReconfigurations s' = numReconfigurations s"
    and "map tag_id (tags s') = map tag_id (tags s)"
    and "map app (tags s') = map app (tags s)"
    and "timestamp s' = timestamp s" and "rand s' = rand s"
proof -
  let ?s1 = "s\<lparr>classes := map (updateClass cfg) (classes s)\<rparr>"
  from assms obtain s2 where a: "adaptAgeCoarsening cfg numObjects ?s1 = Inr s2"
    and s': "s' = (modelHitDensity cfg s2)\<lparr>overflows := 0\<rparr>"
    by (auto simp: reconfigure_def Let_def split: sum.splits)
  from adapt_frame [OF a]
  show "indices s' = indices s" and "numReconfigurations s' = numReconfigurations s"
    and "map tag_id (tags s') = map tag_id (tags s)"
    and "map app (tags s') = map app (tags s)"
    and "timestamp s' = timestamp s" and "rand s' = rand s"
    by (simp_all add: s' modelHitDensity_def)
qed

subsection \<open>What rank, update and replaced change\<close>

lemma getAge_state: "snd (getAge cfg s tag) = s\<lparr>overflows := overflows (snd (getAge cfg s tag))\<rparr>"
  by (simp add: getAge_def Let_def)

lemma getAge_frame [simp]:
  "classes (snd (getAge cfg s tag)) = classes s"
  "tags (snd (getAge cfg s tag)) = tags s"
  "indices (snd (getAge cfg s tag)) = indices s"
  "numReconfigurations (snd (getAge cfg s tag)) = numReconfigurations s"
  "nextReconfiguration (snd (getAge cfg s tag)) = nextReconfiguration s"
  "timestamp (snd (getAge cfg s tag)) = timestamp s"
  "ageCoarseningShift (snd (getAge cfg s tag)) = ageCoarseningShift s"
  "rand (snd (getAge cfg s tag)) = rand s"
  by (simp_all add: getAge_def Let_def)

lemma getAge_bound: "0 < MAX_AGE cfg \<Longrightarrow> fst (getAge cfg s tag) < MAX_AGE cfg"
  by (simp add: getAge_def Let_def)

lemma getHitDensity_frame [simp]:
  "classes (snd (getHitDensity cfg s tag)) = classes s"
  "tags (snd (getHitDensity cfg s tag)) = tags s"
  "indices (snd (getHitDensity cfg s tag)) = indices s"
  "numReconfigurations (snd (getHitDensity cfg s tag)) = numReconfigurations s"
  by (simp_all add: getHitDensity_def Let_def split_beta)

lemma rank_loop_frame:
  assumes "rank_loop cfg n victim victimRank s = Inr (v, s')"
  shows "classes s' = classes s \<and> tags s' = tags s \<and> indices s' = indices s
         \<and> numReconfigurations s' = numReconfigurations s"
  using assms
proof (induction n arbitrary: victim victimRank s)
  case 0
  then show ?case by simp
next
  case (Suc n)
  let ?s1 = "s\<lparr>rand := Suc (rand s)\<rparr>"
  let ?idx = "rand_out cfg (rand s) mod length (tags ?s1)"
  let ?h = "getHitDensity cfg ?s1 (tags ?s1 ! ?idx)"
  from Suc.prems have ne: "tags s \<noteq> []"
    by (auto simp: Let_def split: if_splits)
  from Suc.prems ne obtain victim' rank' where
    "rank_loop cfg n victim' rank' (snd ?h) = Inr (v, s')"
    by (auto simp: Let_def split_beta split: if_splits)
  from Suc.IH [OF this] show ?case by simp
qed

lemma rank_frame:
  assumes "rank cfg s = Inr (v, s')"
  shows "classes s' = classes s" and "tags s' = tags s" and "indices s' = indices s"
    and "numReconfigurations s' = numReconfigurations s"
proof -
  from assms obtain n vo where "rank_loop cfg n None (RANK_MAX cfg) s = Inr (vo, s')"
    by (auto simp: rank_def Let_def split: sum.splits option.splits)
  from rank_loop_frame [OF this]
  show "classes s' = classes s" and "tags s' = tags s" and "indices s' = indices s"
    and "numReconfigurations s' = numReconfigurations s"
    by simp_all
qed

lemma update_tag_classes:
  assumes "update_tag cfg cid s = Inr (pos, s3)"
  shows "numReconfigurations s3 = numReconfigurations s
         \<and> nextReconfiguration s3 = nextReconfiguration s
         \<and> (classes s3 = classes s
            \<or> (\<exists>c age. classes s3
                  = (classes s)[c := (classes s ! c)\<lparr>hits := (hits (classes s ! c))
                                       [age := hits (classes s ! c) ! age + 1]\<rparr>]))"
proof (cases "indices s cid")
  case None
  with assms show ?thesis by (auto simp: update_tag_def)
next
  case (Some p)
  let ?tag = "tags s ! p"
  let ?c = "getClassId cfg ?tag"
  let ?age = "fst (getAge cfg s ?tag)"
  from assms Some have
    "classes s3 = (classes s)[?c := (classes s ! ?c)\<lparr>hits := (hits (classes s ! ?c))
                                       [?age := hits (classes s ! ?c) ! ?age + 1]\<rparr>]"
    and "numReconfigurations s3 = numReconfigurations s"
    and "nextReconfiguration s3 = nextReconfiguration s"
    by (auto simp: update_tag_def Let_def split_beta split: if_splits)
  then show ?thesis by blast
qed

lemma replaced_classes:
  assumes "replaced cfg cid s = Inr s'"
  shows "numReconfigurations s' = numReconfigurations s
         \<and> (\<exists>c age. classes s'
                  = (classes s)[c := (classes s ! c)\<lparr>evictions := (evictions (classes s ! c))
                                       [age := evictions (classes s ! c) ! age + 1]\<rparr>])"
proof (cases "indices s cid")
  case None
  with assms show ?thesis by (simp add: replaced_def)
next
  case (Some p)
  let ?tag = "tags s ! p"
  let ?c = "getClassId cfg ?tag"
  let ?age = "fst (getAge cfg s ?tag)"
  from assms Some have
    "classes s' = (classes s)[?c := (classes s ! ?c)\<lparr>evictions := (evictions (classes s ! ?c))
                                       [?age := evictions (classes s ! ?c) ! ?age + 1]\<rparr>]"
    and "numReconfigurations s' = numReconfigurations s"
    by (auto simp: replaced_def Let_def split_beta split: if_splits)
  then show ?thesis by blast
qed

lemma update_classes:
  assumes "update cfg numObjects cid req s = Inr s'"
  shows "\<exists>pos s3. update_tag cfg cid s = Inr (pos, s3)
           \<and> ((classes s' = classes s3 \<and> numReconfigurations s' = numReconfigurations s)
              \<or> (numReconfigurations s' = Suc (numReconfigurations s)
                  \<and> (\<exists>f. classes s' = map (\<lambda>cl. modelClass cfg (f (updateClass cfg cl))) (classes s3)
                        \<and> ((\<exists>k. f = stretchClass cfg k) \<or> (\<exists>k. f = compressClass cfg k)
                            \<or> f = (\<lambda>cl. cl)))))"
proof -
  from assms obtain pos s3 where t: "update_tag cfg cid s = Inr (pos, s3)"
    by (auto simp: update_def split: sum.splits)
  from update_tag_classes [OF t] have nr: "numReconfigurations s3 = numReconfigurations s" by simp
  define s5 where "s5 = s3\<lparr>tags := (tags s3)[pos := (tags s3 ! pos)
                                 \<lparr>tag_timestamp := drop_bit (ageCoarseningShift s3) (timestamp s3),
                                  app := appId req mod APP_CLASSES cfg,
                                  tag_size := req_size req\<rparr>],
                            rand := Suc (rand s3),
                            timestamp := timestamp s3 + 1,
                            nextReconfiguration := nextReconfiguration s3 - 1\<rparr>"
  have s5: "classes s5 = classes s3" "numReconfigurations s5 = numReconfigurations s3"
    by (simp_all add: s5_def)
  show ?thesis
  proof (cases "nextReconfiguration s3 - 1 = 0")
    case False
    with assms t have "s' = s5" by (simp add: update_def Let_def s5_def)
    with t s5 nr show ?thesis by auto
  next
    case True
    with assms t obtain s6 where r: "reconfigure cfg numObjects s5 = Inr s6"
      and s': "s' = s6\<lparr>nextReconfiguration := ACCS_PER_RECONFIGURATION cfg,
                       numReconfigurations := Suc (numReconfigurations s6)\<rparr>"
      by (auto simp: update_def Let_def s5_def split: sum.splits)
    from reconfigure_cases [OF r] reconfigure_frame(2) [OF r] t s5 nr s'
    show ?thesis by auto
  qed
qed

subsection \<open>Induction over the classes of reachable states\<close>

text \<open>
  A property of a class that holds for the constructor's classes, survives a hit and an
  eviction, and is established again by every rebuild of the model, holds for the classes
  of every reachable state. The flag tells whether a reconfiguration has completed.
\<close>

lemma reachable_classes:
  assumes r: "reachable cfg s"
    and init: "\<And>c. c < NUM_CLASSES cfg \<Longrightarrow> P False c (init_class cfg c)"
    and hit: "\<And>b c cl age. P b c cl \<Longrightarrow> P b c (cl\<lparr>hits := (hits cl)[age := hits cl ! age + 1]\<rparr>)"
    and evict: "\<And>b c cl age. P b c cl
                  \<Longrightarrow> P b c (cl\<lparr>evictions := (evictions cl)[age := evictions cl ! age + 1]\<rparr>)"
    and stretch: "\<And>b c cl k. P b c cl
                  \<Longrightarrow> P True c (modelClass cfg (stretchClass cfg k (updateClass cfg cl)))"
    and compress: "\<And>b c cl k. P b c cl
                  \<Longrightarrow> P True c (modelClass cfg (compressClass cfg k (updateClass cfg cl)))"
    and plain: "\<And>b c cl. P b c cl \<Longrightarrow> P True c (modelClass cfg (updateClass cfg cl))"
  shows "length (classes s) = NUM_CLASSES cfg
         \<and> (\<forall>c<NUM_CLASSES cfg. P (0 < numReconfigurations s) c (classes s ! c))"
  using r
proof (induction rule: reachable.induct)
  case fresh
  show ?case by (simp add: LHD_init_def init)
next
  case (after_update s numObjects cid req s')
  let ?b = "0 < numReconfigurations s"
  from after_update.IH have len: "length (classes s) = NUM_CLASSES cfg"
    and P: "\<And>c. c < NUM_CLASSES cfg \<Longrightarrow> P ?b c (classes s ! c)" by simp_all
  from update_classes [OF after_update.hyps(2)] obtain pos s3 where
    t: "update_tag cfg cid s = Inr (pos, s3)"
    and alt: "(classes s' = classes s3 \<and> numReconfigurations s' = numReconfigurations s)
              \<or> (numReconfigurations s' = Suc (numReconfigurations s)
                  \<and> (\<exists>f. classes s' = map (\<lambda>cl. modelClass cfg (f (updateClass cfg cl))) (classes s3)
                        \<and> ((\<exists>k. f = stretchClass cfg k) \<or> (\<exists>k. f = compressClass cfg k)
                            \<or> f = (\<lambda>cl. cl))))"
    by (elim exE conjE) (rule that)
  have len3: "length (classes s3) = NUM_CLASSES cfg"
    using update_tag_classes [OF t] len by auto
  have P3: "P ?b c (classes s3 ! c)" if c: "c < NUM_CLASSES cfg" for c
  proof -
    from update_tag_classes [OF t] consider "classes s3 = classes s"
      | c0 age where "classes s3 = (classes s)[c0 := (classes s ! c0)\<lparr>hits := (hits (classes s ! c0))
                                       [age := hits (classes s ! c0) ! age + 1]\<rparr>]"
      by blast
    then show ?thesis
    proof cases
      case 1
      then show ?thesis using P [OF c] by simp
    next
      case 2
      show ?thesis
      proof (cases "c = c0")
        case True
        then show ?thesis using 2 c len hit [OF P [OF c]] by simp
      next
        case False
        then show ?thesis using 2 P [OF c] by simp
      qed
    qed
  qed
  from alt show ?case
  proof (elim disjE conjE)
    assume "classes s' = classes s3" "numReconfigurations s' = numReconfigurations s"
    then show ?thesis using len3 P3 by simp
  next
    assume n: "numReconfigurations s' = Suc (numReconfigurations s)"
      and ex: "\<exists>f. classes s' = map (\<lambda>cl. modelClass cfg (f (updateClass cfg cl))) (classes s3)
                \<and> ((\<exists>k. f = stretchClass cfg k) \<or> (\<exists>k. f = compressClass cfg k)
                    \<or> f = (\<lambda>cl. cl))"
    from ex obtain f where
      cl: "classes s' = map (\<lambda>cl. modelClass cfg (f (updateClass cfg cl))) (classes s3)"
      and f: "(\<exists>k. f = stretchClass cfg k) \<or> (\<exists>k. f = compressClass cfg k) \<or> f = (\<lambda>cl. cl)"
      by (elim exE conjE) (rule that)
    have "P True c (modelClass cfg (f (updateClass cfg (classes s3 ! c))))"
      if c: "c < NUM_CLASSES cfg" for c
      using f stretch [OF P3 [OF c]] compress [OF P3 [OF c]] plain [OF P3 [OF c]] by auto
    then show ?thesis using len3 n cl by simp
  qed
next
  case (after_replaced s cid s')
  let ?b = "0 < numReconfigurations s"
  from after_replaced.IH have len: "length (classes s) = NUM_CLASSES cfg"
    and P: "\<And>c. c < NUM_CLASSES cfg \<Longrightarrow> P ?b c (classes s ! c)" by simp_all
  from replaced_classes [OF after_replaced.hyps(2)] obtain c0 age where
    n: "numReconfigurations s' = numReconfigurations s"
    and cl: "classes s' = (classes s)[c0 := (classes s ! c0)\<lparr>evictions := (evictions (classes s ! c0))
                                       [age := evictions (classes s ! c0) ! age + 1]\<rparr>]"
    by blast
  have "P ?b c (classes s' ! c)" if c: "c < NUM_CLASSES cfg" for c
  proof (cases "c = c0")
    case True
    then show ?thesis using cl c len evict [OF P [OF c]] by simp
  next
    case False
    then show ?thesis using cl P [OF c] by simp
  qed
  then show ?case using len n cl by simp
next
  case (after_rank s victim s')
  from rank_frame [OF after_rank.hyps(2)] after_rank.IH show ?case by simp
qed

subsection \<open>The last bin\<close>


subsection \<open>Bounds of the density model\<close>













subsection \<open>The coarsening shift\<close>





lemma adapt_recompute:
  assumes "numReconfigurations s = 5 \<or> numReconfigurations s = 25"
    and "coarseningLog2 (optimalAgeCoarsening cfg (ewma_update cfg numObjects s)) 1 = Some l"
    and "tags s = [] \<or> ageCoarseningShift s \<le> l"
  shows "\<exists>s'. adaptAgeCoarsening cfg numObjects s = Inr s'
           \<and> ageCoarseningShift s' = l
           \<and> ewmaNumObjects s' = ewmaNumObjects (ewma_update cfg numObjects s) * 8
           \<and> ewmaNumObjectsMass s' = ewmaNumObjectsMass (ewma_update cfg numObjects s) * 8
           \<and> tags s' = map (\<lambda>tag. tag\<lparr>tag_timestamp :=
                               drop_bit (l - ageCoarseningShift s) (tag_timestamp tag)\<rparr>) (tags s)"
proof -
  let ?s1 = "ewma_update cfg numObjects s"
  have s1: "numReconfigurations ?s1 = numReconfigurations s" "tags ?s1 = tags s"
    "ageCoarseningShift ?s1 = ageCoarseningShift s"
    by (simp_all add: ewma_update_def)
  have id: "map (\<lambda>tag. tag\<lparr>tag_timestamp := drop_bit (0::nat) (tag_timestamp tag)\<rparr>) (tags s) = tags s"
    by (simp add: map_idI)
  consider "int l - int (ageCoarseningShift s) < 0" | "int l - int (ageCoarseningShift s) > 0"
    | "int l - int (ageCoarseningShift s) = 0" by linarith
  then show ?thesis
  proof cases
    case 1
    with assms(3) have "tags s = []" by auto
    with 1 assms(1,2) s1 show ?thesis
      by (simp add: adaptAgeCoarsening_def Let_def)
  next
    case 2
    then have "nat (int l - int (ageCoarseningShift s)) = l - ageCoarseningShift s" by simp
    with 2 assms(1,2) s1 show ?thesis
      by (simp add: adaptAgeCoarsening_def Let_def)
  next
    case 3
    then have "l - ageCoarseningShift s = 0" by simp
    with 3 assms(1,2) s1 id show ?thesis
      by (simp add: adaptAgeCoarsening_def Let_def)
  qed
qed

lemma stretch_with_tags_fails:
  assumes "numReconfigurations s = 5 \<or> numReconfigurations s = 25"
    and "coarseningLog2 (optimalAgeCoarsening cfg (ewma_update cfg numObjects s)) 1 = Some l"
    and "l < ageCoarseningShift s" and "tags s \<noteq> []"
  shows "\<exists>s'. adaptAgeCoarsening cfg numObjects s = Inl (BadShift, s')"
proof -
  let ?s1 = "ewma_update cfg numObjects s"
  have s1: "numReconfigurations ?s1 = numReconfigurations s" "tags ?s1 = tags s"
    "ageCoarseningShift ?s1 = ageCoarseningShift s"
    by (simp_all add: ewma_update_def)
  from assms(3) have "int l - int (ageCoarseningShift s) < 0" by simp
  with assms(1,2,4) s1 show ?thesis
    by (simp add: adaptAgeCoarsening_def Let_def)
qed

subsection \<open>The tag index is kept consistent\<close>










subsection \<open>A hit in update\<close>

lemma word_pred_zero: "(x :: 64 word) - 1 = 0 \<longleftrightarrow> x = 1"
  by simp

lemma updates_append:
  "updates cfg (xs @ ys) s
   = (case updates cfg xs s of Inl e \<Rightarrow> Inl e | Inr s' \<Rightarrow> updates cfg ys s')"
  by (induction xs arbitrary: s) (auto split: sum.splits)

lemma updates_single: "updates cfg [(numObjects, cid)] s = update cfg numObjects cid unit_request s"
  by (simp split: sum.splits)

lemma hit_path_result:
  fixes cfg :: config and s :: LHD
  assumes i: "indices s cid = Some pos" and id: "tag_id (tags s ! pos) = cid"
    and pos: "pos < length (tags s)" and nr: "nextReconfiguration s \<noteq> 1"
  defines "tag \<equiv> tags s ! pos"
  defines "age \<equiv> fst (getAge cfg s tag)"
  defines "c \<equiv> getClassId cfg tag"
  shows "\<exists>s'. update cfg numObjects cid req s = Inr s'
           \<and> classes s' = (classes s)[c := (classes s ! c)\<lparr>hits := (hits (classes s ! c))
                                      [age := hits (classes s ! c) ! age + 1]\<rparr>]
           \<and> tags s' = (tags s)[pos := tag\<lparr>lastLastHitAge := lastHitAge tag, lastHitAge := age,
                                        tag_timestamp := drop_bit (ageCoarseningShift s) (timestamp s),
                                        app := appId req mod APP_CLASSES cfg,
                                        tag_size := req_size req\<rparr>]
           \<and> indices s' = indices s
           \<and> timestamp s' = timestamp s + 1"
proof -
  let ?s1 = "snd (getAge cfg s tag)"
  let ?s3 = "?s1\<lparr>classes := (classes s)[c := (classes s ! c)\<lparr>hits := (hits (classes s ! c))
                                      [age := hits (classes s ! c) ! age + 1]\<rparr>],
                  tags := (tags s)[pos := tag\<lparr>lastLastHitAge := lastHitAge tag, lastHitAge := age\<rparr>]\<rparr>"
  have t: "update_tag cfg cid s = Inr (pos, ?s3)"
    using i id by (simp add: update_tag_def Let_def split_beta tag_def age_def c_def)
  have n: "nextReconfiguration ?s1 - 1 \<noteq> 0" using nr by simp
  show ?thesis
    using n pos by (simp add: update_def t Let_def)
qed

subsection \<open>Classes and ages of resident tags are in range\<close>

lemma decay_bin_lengths [simp]:
  "length (hits (decay_bin cfg a cl)) = length (hits cl)"
  "length (evictions (decay_bin cfg a cl)) = length (evictions cl)"
  by (simp_all add: decay_bin_def Let_def)

lemma updateClass_shape: "shape_ok m (updateClass cfg cl) = shape_ok m cl"
proof -
  have "length (hits (updateClass cfg cl)) = length (hits cl)"
    unfolding updateClass_def
    by (rule trans [OF fold_keeps [where g = "\<lambda>cl. length (hits cl)"]]) simp_all
  moreover have "length (evictions (updateClass cfg cl)) = length (evictions cl)"
    unfolding updateClass_def
    by (rule trans [OF fold_keeps [where g = "\<lambda>cl. length (evictions cl)"]]) simp_all
  ultimately show ?thesis by (simp add: shape_ok_def)
qed

lemma stretchClass_shape: "shape_ok m (stretchClass cfg k cl) = shape_ok m cl"
proof -
  have "length (hits (stretchClass cfg k cl)) = length (hits cl)"
    unfolding stretchClass_def Let_def
    by (rule trans [OF fold_keeps [where g = "\<lambda>cl. length (hits cl)"]], simp,
        rule trans [OF fold_keeps [where g = "\<lambda>cl. length (hits cl)"]], simp_all)
  moreover have "length (evictions (stretchClass cfg k cl)) = length (evictions cl)"
    unfolding stretchClass_def Let_def
    by (rule trans [OF fold_keeps [where g = "\<lambda>cl. length (evictions cl)"]], simp,
        rule trans [OF fold_keeps [where g = "\<lambda>cl. length (evictions cl)"]], simp_all)
  ultimately show ?thesis by (simp add: shape_ok_def)
qed

lemma compressClass_shape: "shape_ok m (compressClass cfg k cl) = shape_ok m cl"
proof -
  have "length (hits (compressClass cfg k cl)) = length (hits cl)"
    unfolding compressClass_def Let_def
    by (rule trans [OF fold_keeps [where g = "\<lambda>cl. length (hits cl)"]], simp,
        rule trans [OF fold_keeps [where g = "\<lambda>cl. length (hits cl)"]],
        (rule trans [OF fold_keeps [where g = "\<lambda>cl. length (hits cl)"]], simp, simp), simp)
  moreover have "length (evictions (compressClass cfg k cl)) = length (evictions cl)"
    unfolding compressClass_def Let_def
    by (rule trans [OF fold_keeps [where g = "\<lambda>cl. length (evictions cl)"]], simp,
        rule trans [OF fold_keeps [where g = "\<lambda>cl. length (evictions cl)"]],
        (rule trans [OF fold_keeps [where g = "\<lambda>cl. length (evictions cl)"]], simp, simp), simp)
  ultimately show ?thesis by (simp add: shape_ok_def)
qed

lemma modelClass_shape: "shape_ok m (modelClass cfg cl) = shape_ok m cl"
  by (simp add: shape_ok_def modelClass_length)

lemma shape_reachable:
  assumes "reachable cfg s"
  shows "length (classes s) = NUM_CLASSES cfg
         \<and> (\<forall>c<NUM_CLASSES cfg. shape_ok (MAX_AGE cfg) (classes s ! c))"
  by (rule reachable_classes [OF assms, where P = "\<lambda>b c cl. shape_ok (MAX_AGE cfg) cl"])
     (simp_all add: modelClass_shape stretchClass_shape compressClass_shape updateClass_shape,
      simp_all add: shape_ok_def init_class_def)

lemma update_tag_apps:
  assumes "update_tag cfg cid s = Inr (pos, s3)" and "\<forall>t\<in>set (tags s). app t < APP_CLASSES cfg"
    and "0 < APP_CLASSES cfg"
  shows "\<forall>t\<in>set (tags s3). app t < APP_CLASSES cfg"
proof (cases "indices s cid")
  case None
  with assms show ?thesis by (auto simp: update_tag_def)
next
  case (Some p)
  let ?t = "(tags s ! p)\<lparr>lastLastHitAge := lastHitAge (tags s ! p),
                          lastHitAge := fst (getAge cfg s (tags s ! p))\<rparr>"
  from assms(1) Some have t: "tags s3 = (tags s)[p := ?t]"
    by (auto simp: update_tag_def Let_def split_beta split: if_splits)
  show ?thesis
  proof (cases "p < length (tags s)")
    case False
    then have "tags s3 = tags s" unfolding t by (simp add: list_update_beyond)
    with assms(2) show ?thesis by simp
  next
    case True
    with assms(2) have "app ?t < APP_CLASSES cfg" by simp
    moreover have "set (tags s3) \<subseteq> insert ?t (set (tags s))"
      unfolding t by (rule set_update_subset_insert)
    ultimately show ?thesis using assms(2) by auto
  qed
qed

lemma update_apps:
  assumes "update cfg numObjects cid req s = Inr s'" and "\<forall>t\<in>set (tags s). app t < APP_CLASSES cfg"
    and "0 < APP_CLASSES cfg"
  shows "\<forall>t\<in>set (tags s'). app t < APP_CLASSES cfg"
proof -
  from assms(1) obtain pos s3 where t: "update_tag cfg cid s = Inr (pos, s3)"
    by (auto simp: update_def split: sum.splits)
  note a3 = update_tag_apps [OF t assms(2,3)]
  define s5 where "s5 = s3\<lparr>tags := (tags s3)[pos := (tags s3 ! pos)
                                 \<lparr>tag_timestamp := drop_bit (ageCoarseningShift s3) (timestamp s3),
                                  app := appId req mod APP_CLASSES cfg,
                                  tag_size := req_size req\<rparr>],
                            rand := Suc (rand s3),
                            timestamp := timestamp s3 + 1,
                            nextReconfiguration := nextReconfiguration s3 - 1\<rparr>"
  have a5: "\<forall>t\<in>set (tags s5). app t < APP_CLASSES cfg"
  proof
    fix x assume "x \<in> set (tags s5)"
    then have "app x = appId req mod APP_CLASSES cfg \<or> x \<in> set (tags s3)"
      unfolding s5_def by (auto dest: set_update_subset_insert [THEN subsetD])
    with a3 assms(3) show "app x < APP_CLASSES cfg" by auto
  qed
  show ?thesis
  proof (cases "nextReconfiguration s3 - 1 = 0")
    case False
    with assms(1) t have "s' = s5" by (simp add: update_def Let_def s5_def)
    with a5 show ?thesis by simp
  next
    case True
    with assms(1) t obtain s6 where r: "reconfigure cfg numObjects s5 = Inr s6"
      and s': "s' = s6\<lparr>nextReconfiguration := ACCS_PER_RECONFIGURATION cfg,
                       numReconfigurations := Suc (numReconfigurations s6)\<rparr>"
      by (auto simp: update_def Let_def s5_def split: sum.splits)
    from reconfigure_frame(4) [OF r] have "app ` set (tags s6) = app ` set (tags s5)"
      by (metis set_map)
    have "app x < APP_CLASSES cfg" if "x \<in> set (tags s6)" for x
    proof -
      from that have "app x \<in> app ` set (tags s5)" using \<open>app ` set (tags s6) = app ` set (tags s5)\<close>
        by blast
      with a5 show ?thesis by auto
    qed
    then show ?thesis by (simp add: s')
  qed
qed

lemma replaced_apps:
  assumes "replaced cfg cid s = Inr s'" and "\<forall>t\<in>set (tags s). app t < APP_CLASSES cfg"
  shows "\<forall>t\<in>set (tags s'). app t < APP_CLASSES cfg"
proof -
  from assms(1) obtain i where "tags s' = butlast ((tags s)[i := last (tags s)])"
    by (cases "indices s cid") (auto simp: replaced_def Let_def split_beta split: if_splits)
  then have sub: "set (tags s') \<subseteq> set ((tags s)[i := last (tags s)])"
    by (auto dest: in_set_butlastD)
  show ?thesis
  proof (cases "tags s = []")
    case True
    with sub show ?thesis by simp
  next
    case False
    then have "last (tags s) \<in> set (tags s)" by simp
    with sub set_update_subset_insert [of "tags s" i "last (tags s)"]
    have "set (tags s') \<subseteq> set (tags s)" by auto
    with assms(2) show ?thesis by auto
  qed
qed

lemma apps_reachable:
  assumes "reachable cfg s" and "0 < APP_CLASSES cfg"
  shows "\<forall>t\<in>set (tags s). app t < APP_CLASSES cfg"
  using assms(1)
proof (induction rule: reachable.induct)
  case fresh
  show ?case by (simp add: LHD_init_def)
next
  case (after_update s numObjects cid req s')
  from after_update.hyps(2) after_update.IH assms(2) show ?case by (rule update_apps)
next
  case (after_replaced s cid s')
  from after_replaced.hyps(2) after_replaced.IH show ?case by (rule replaced_apps)
next
  case (after_rank s victim s')
  from rank_frame(2) [OF after_rank.hyps(2)] after_rank.IH show ?case by simp
qed

lemma reachable_in_range:
  assumes "reachable cfg s" and "0 < MAX_AGE cfg" and "0 < APP_CLASSES cfg"
    and hac: "\<And>t. hitAgeClass cfg t < HIT_AGE_CLASSES cfg"
    and "tag \<in> set (tags s)"
  shows "getClassId cfg tag < length (classes s)"
    and "fst (getAge cfg s tag) < length (hits (classes s ! getClassId cfg tag))"
    and "fst (getAge cfg s tag) < length (evictions (classes s ! getClassId cfg tag))"
    and "fst (getAge cfg s tag) < length (hitDensities (classes s ! getClassId cfg tag))"
proof -
  from apps_reachable [OF assms(1,3)] assms(5) have "app tag + 1 \<le> APP_CLASSES cfg" by auto
  then have "(app tag + 1) * HIT_AGE_CLASSES cfg \<le> APP_CLASSES cfg * HIT_AGE_CLASSES cfg"
    by (rule mult_le_mono1)
  moreover have "app tag * HIT_AGE_CLASSES cfg + hitAgeClass cfg tag
                 < (app tag + 1) * HIT_AGE_CLASSES cfg"
    using hac [of tag] by simp
  ultimately have c: "getClassId cfg tag < NUM_CLASSES cfg"
    by (simp add: getClassId_def NUM_CLASSES_def)
  from shape_reachable [OF assms(1)] c
  have len: "length (classes s) = NUM_CLASSES cfg"
    and sh: "shape_ok (MAX_AGE cfg) (classes s ! getClassId cfg tag)" by simp_all
  from c len show "getClassId cfg tag < length (classes s)" by simp
  from sh getAge_bound [OF assms(2), of s tag]
  show "fst (getAge cfg s tag) < length (hits (classes s ! getClassId cfg tag))"
    and "fst (getAge cfg s tag) < length (evictions (classes s ! getClassId cfg tag))"
    and "fst (getAge cfg s tag) < length (hitDensities (classes s ! getClassId cfg tag))"
    by (simp_all add: shape_ok_def)
qed

subsection \<open>The example runs\<close>

lemma completed_final: "completed r \<Longrightarrow> r = Inr (final r)"
  by (cases r) (simp_all add: completed_def final_def)






lemma trace6_classes:
  "map hits (classes (final trace6)) = [[0, 1 / 4, 0, 1 / 4]]"
  "map evictions (classes (final trace6)) = [[0, 0, 0, 0]]"
  "map hitDensities (classes (final trace6)) = [[1 / 3, 1 / 2, 1 / 2, 1 / 4]]"
  "map totalHits (classes (final trace6)) = [1 / 4]"
  by code_simp+

subsection \<open>The density model\<close>

text \<open>
  C4: for every class and every content of its histograms, \<open>modelHitDensity\<close> leaves
  the histograms as they are and sets, for every age \<open>a\<close> from \<open>MAX_AGE - 2\<close> down to
  \<open>0\<close>, \<open>hitDensities[a]\<close> to \<open>H / L\<close> if \<open>E > 1e-5\<close> and to \<open>0\<close> otherwise, where
  \<open>H\<close> is the sum of \<open>hits[a']\<close> over \<open>a' \<ge> a\<close>, \<open>E\<close> the sum of
  \<open>hits[a'] + evictions[a']\<close> over \<open>a' \<ge> a\<close>, and \<open>L\<close> the sum of the values of \<open>E\<close> at the
  ages \<open>a'' \<ge> a\<close>.
\<close>

theorem density_recurrence:
  assumes "c < length (classes s)"
    and "length (hitDensities (classes s ! c)) = MAX_AGE cfg"
    and "a + 1 < MAX_AGE cfg"
  shows "hitDensities (classes (modelHitDensity cfg s) ! c) ! a
           = spec_density (hits (classes s ! c)) (evictions (classes s ! c)) (MAX_AGE cfg) a
         \<and> hits (classes (modelHitDensity cfg s) ! c) = hits (classes s ! c)
         \<and> evictions (classes (modelHitDensity cfg s) ! c) = evictions (classes s ! c)"
proof -
  have "a < length (hitDensities (classes s ! c))" using assms(2,3) by simp
  from modelClass_density [OF assms(3) this] assms(1)
  show ?thesis by (simp add: modelHitDensity_def)
qed

theorem density_recurrence_witness:
  "0 < length (classes (final trace6))
   \<and> length (hitDensities (classes (final trace6) ! 0)) = MAX_AGE cfg_small
   \<and> 1 + 1 < MAX_AGE cfg_small
   \<and> hitDensities (classes (modelHitDensity cfg_small (final trace6)) ! 0) ! 1
       = spec_density (hits (classes (final trace6) ! 0)) (evictions (classes (final trace6) ! 0))
           (MAX_AGE cfg_small) 1
   \<and> spec_density (hits (classes (final trace6) ! 0)) (evictions (classes (final trace6) ! 0))
           (MAX_AGE cfg_small) 1 = 1 / 2"
proof -
  have 1: "0 < length (classes (final trace6))" by code_simp
  have 2: "length (hitDensities (classes (final trace6) ! 0)) = MAX_AGE cfg_small" by code_simp
  have 3: "(1::nat) + 1 < MAX_AGE cfg_small" by (simp add: cfg_small_def)
  have 4: "spec_density (hits (classes (final trace6) ! 0)) (evictions (classes (final trace6) ! 0))
           (MAX_AGE cfg_small) 1 = 1 / 2" by code_simp
  from density_recurrence [OF 1 2 3] 1 2 3 4 show ?thesis by simp
qed






subsection \<open>Totals after a reconfiguration\<close>




subsection \<open>Age coarsening\<close>




text \<open>
  C6, as amended: at a reconfiguration where the shift is recomputed and
  \<open>delta = newShift - oldShift\<close> is positive (compress), \<open>adaptAgeCoarsening\<close> returns and
  every resident tag's stored timestamp is shifted right by \<open>delta\<close>; nothing else of a
  tag changes.
\<close>

theorem timestamps_compressed:
  assumes "numReconfigurations s = 5 \<or> numReconfigurations s = 25"
    and "coarseningLog2 (optimalAgeCoarsening cfg (ewma_update cfg numObjects s)) 1 = Some l"
    and "ageCoarseningShift s < l"
  shows "\<exists>s'. adaptAgeCoarsening cfg numObjects s = Inr s'
           \<and> ageCoarseningShift s' = l
           \<and> tags s' = map (\<lambda>tag. tag\<lparr>tag_timestamp :=
                               drop_bit (l - ageCoarseningShift s) (tag_timestamp tag)\<rparr>) (tags s)"
proof -
  from assms(3) have "tags s = [] \<or> ageCoarseningShift s \<le> l" by simp
  from adapt_recompute [OF assms(1,2) this] show ?thesis by blast
qed

theorem timestamps_compressed_witness:
  "numReconfigurations (final trace5) = 5
   \<and> coarseningLog2 (optimalAgeCoarsening cfg_small (ewma_update cfg_small 4 (final trace5))) 1
       = Some 1
   \<and> ageCoarseningShift (final trace5) < 1
   \<and> completed (adaptAgeCoarsening cfg_small 4 (final trace5))
   \<and> ageCoarseningShift (final (adaptAgeCoarsening cfg_small 4 (final trace5))) = 1
   \<and> tag_timestamps (final (adaptAgeCoarsening cfg_small 4 (final trace5)))
       = map (drop_bit (1 - ageCoarseningShift (final trace5))) (tag_timestamps (final trace5))"
proof -
  have 1: "numReconfigurations (final trace5) = 5" by code_simp
  have 2: "coarseningLog2 (optimalAgeCoarsening cfg_small (ewma_update cfg_small 4 (final trace5))) 1
           = Some 1" by code_simp
  have 3: "ageCoarseningShift (final trace5) < 1" by code_simp
  from timestamps_compressed [OF disjI1 [OF 1] 2 3] 1 2 3
  show ?thesis by (auto simp: completed_def final_def tag_timestamps_def comp_def)
qed

theorem timestamps_compressed_counterexample:
  "numReconfigurations (final trace5) = 5
   \<and> ageCoarseningShift (final trace5) = 0
   \<and> tag_timestamps (final trace5) = [4, 1, 2, 3]
   \<and> completed (adaptAgeCoarsening cfg_small 4 (final trace5))
   \<and> ageCoarseningShift (final (adaptAgeCoarsening cfg_small 4 (final trace5))) = 1
   \<and> tag_timestamps (final (adaptAgeCoarsening cfg_small 4 (final trace5))) = [2, 0, 1, 1]
   \<and> map (push_bit 1) (tag_timestamps (final trace5)) = [8, 2, 4, 6]
   \<and> tag_timestamps (final (adaptAgeCoarsening cfg_small 4 (final trace5)))
       \<noteq> map (push_bit 1) (tag_timestamps (final trace5))"
proof -
  have "numReconfigurations (final trace5) = 5" by code_simp
  moreover have "ageCoarseningShift (final trace5) = 0" by code_simp
  moreover have "tag_timestamps (final trace5) = [4, 1, 2, 3]" by code_simp
  moreover have "completed (adaptAgeCoarsening cfg_small 4 (final trace5))" by code_simp
  moreover have "ageCoarseningShift (final (adaptAgeCoarsening cfg_small 4 (final trace5))) = 1"
    by code_simp
  moreover have "tag_timestamps (final (adaptAgeCoarsening cfg_small 4 (final trace5))) = [2, 0, 1, 1]"
    by code_simp
  ultimately show ?thesis by simp
qed




subsection \<open>Hit accounting\<close>

text \<open>
  C3, as amended: when \<open>id\<close> is in the index (at the tag that carries it) and the call
  does not trigger a reconfiguration (\<open>nextReconfiguration \<noteq> 1\<close>), \<open>update(id, req)\<close>
  returns a state in which \<open>classes[getClass(tag)].hits[getAge(tag)]\<close> is one more than
  before and nothing else of the classes has changed, the tag's \<open>lastLastHitAge\<close> is its
  old \<open>lastHitAge\<close>, its \<open>lastHitAge\<close> is the computed age, and the clock has advanced
  by one; class and age are those of the tag before the call. In scenario S3 (\<open>update\<close>
  of 1, 2, 1 on a fresh ranker with \<open>MAX_AGE = 8\<close>) the third call finds tag 1 at age 2
  in class 0, so the hit bin at age 2 of that class is 1, and the timestamp is 3.
\<close>

theorem update_hit:
  "(indices s cid = Some pos \<and> tag_id (tags s ! pos) = cid \<and> pos < length (tags s)
      \<and> nextReconfiguration s \<noteq> 1
      \<and> getClassId cfg (tags s ! pos) < length (classes s)
      \<and> length (hits (classes s ! getClassId cfg (tags s ! pos))) = MAX_AGE cfg
      \<and> 0 < MAX_AGE cfg
    \<longrightarrow> (\<exists>s'. update cfg numObjects cid req s = Inr s'
          \<and> classes s'
              = (classes s)[getClassId cfg (tags s ! pos) :=
                   (classes s ! getClassId cfg (tags s ! pos))
                     \<lparr>hits := (hits (classes s ! getClassId cfg (tags s ! pos)))
                        [fst (getAge cfg s (tags s ! pos)) :=
                           hits (classes s ! getClassId cfg (tags s ! pos))
                             ! fst (getAge cfg s (tags s ! pos)) + 1]\<rparr>]
          \<and> hits (classes s' ! getClassId cfg (tags s ! pos)) ! fst (getAge cfg s (tags s ! pos))
              = hits (classes s ! getClassId cfg (tags s ! pos)) ! fst (getAge cfg s (tags s ! pos)) + 1
          \<and> lastLastHitAge (tags s' ! pos) = lastHitAge (tags s ! pos)
          \<and> lastHitAge (tags s' ! pos) = fst (getAge cfg s (tags s ! pos))
          \<and> timestamp s' = timestamp s + 1))
   \<and> (completed scenario_S3_before
       \<and> scenario_S3 = update cfg_S3 2 1 unit_request (final scenario_S3_before)
       \<and> completed scenario_S3
       \<and> indices (final scenario_S3_before) 1 = Some 0
       \<and> getClassId cfg_S3 (tags (final scenario_S3_before) ! 0) = 0
       \<and> fst (getAge cfg_S3 (final scenario_S3_before) (tags (final scenario_S3_before) ! 0)) = 2
       \<and> hits (classes (final scenario_S3) ! 0) ! 2 = 1
       \<and> timestamp (final scenario_S3) = 3)"
proof (intro conjI impI)
  assume a: "indices s cid = Some pos \<and> tag_id (tags s ! pos) = cid \<and> pos < length (tags s)
      \<and> nextReconfiguration s \<noteq> 1
      \<and> getClassId cfg (tags s ! pos) < length (classes s)
      \<and> length (hits (classes s ! getClassId cfg (tags s ! pos))) = MAX_AGE cfg
      \<and> 0 < MAX_AGE cfg"
  let ?tag = "tags s ! pos"
  let ?age = "fst (getAge cfg s ?tag)"
  let ?c = "getClassId cfg ?tag"
  from a have age: "?age < length (hits (classes s ! ?c))" by (simp add: getAge_bound)
  from a have h: "indices s cid = Some pos" "tag_id (tags s ! pos) = cid" "pos < length (tags s)"
    "nextReconfiguration s \<noteq> 1" by simp_all
  from hit_path_result [OF h, of cfg numObjects req] obtain s' where
    u: "update cfg numObjects cid req s = Inr s'"
    and c: "classes s' = (classes s)[?c := (classes s ! ?c)\<lparr>hits := (hits (classes s ! ?c))
                                      [?age := hits (classes s ! ?c) ! ?age + 1]\<rparr>]"
    and t: "tags s' = (tags s)[pos := ?tag\<lparr>lastLastHitAge := lastHitAge ?tag, lastHitAge := ?age,
                                        tag_timestamp := drop_bit (ageCoarseningShift s) (timestamp s),
                                        app := appId req mod APP_CLASSES cfg,
                                        tag_size := req_size req\<rparr>]"
    and ts: "timestamp s' = timestamp s + 1"
    by blast
  have "hits (classes s' ! ?c) ! ?age = hits (classes s ! ?c) ! ?age + 1"
    using a age by (simp add: c)
  moreover have "lastLastHitAge (tags s' ! pos) = lastHitAge ?tag"
    "lastHitAge (tags s' ! pos) = ?age"
    using a by (simp_all add: t)
  ultimately show "\<exists>s'. update cfg numObjects cid req s = Inr s'
          \<and> classes s'
              = (classes s)[?c := (classes s ! ?c)\<lparr>hits := (hits (classes s ! ?c))
                        [?age := hits (classes s ! ?c) ! ?age + 1]\<rparr>]
          \<and> hits (classes s' ! ?c) ! ?age = hits (classes s ! ?c) ! ?age + 1
          \<and> lastLastHitAge (tags s' ! pos) = lastHitAge ?tag
          \<and> lastHitAge (tags s' ! pos) = ?age
          \<and> timestamp s' = timestamp s + 1"
    using u c ts by blast
next
  show c: "completed scenario_S3_before" by code_simp
  have "scenario_S3 = updates cfg_S3 ([(0, 1), (1, 2)] @ [(2, 1)]) (LHD_init cfg_S3)"
    by (simp add: scenario_S3_def)
  also have "\<dots> = updates cfg_S3 [(2, 1)] (final scenario_S3_before)"
  proof -
    have "updates cfg_S3 [(0, 1), (1, 2)] (LHD_init cfg_S3) = Inr (final scenario_S3_before)"
      using completed_final [OF c] by (simp only: scenario_S3_before_def)
    then show ?thesis by (simp only: updates_append sum.case)
  qed
  finally show "scenario_S3 = update cfg_S3 2 1 unit_request (final scenario_S3_before)"
    unfolding updates_single .
  show "completed scenario_S3" by code_simp
  show "indices (final scenario_S3_before) 1 = Some 0" by code_simp
  show "getClassId cfg_S3 (tags (final scenario_S3_before) ! 0) = 0" by code_simp
  show "fst (getAge cfg_S3 (final scenario_S3_before) (tags (final scenario_S3_before) ! 0)) = 2"
    by code_simp
  show "hits (classes (final scenario_S3) ! 0) ! 2 = 1" by code_simp
  show "timestamp (final scenario_S3) = 3" by code_simp
qed

theorem update_hit_witness:
  "indices (final scenario_S3_before) 1 = Some 0
   \<and> tag_id (tags (final scenario_S3_before) ! 0) = 1
   \<and> 0 < length (tags (final scenario_S3_before))
   \<and> nextReconfiguration (final scenario_S3_before) \<noteq> 1
   \<and> getClassId cfg_S3 (tags (final scenario_S3_before) ! 0)
       < length (classes (final scenario_S3_before))
   \<and> length (hits (classes (final scenario_S3_before)
                     ! getClassId cfg_S3 (tags (final scenario_S3_before) ! 0))) = MAX_AGE cfg_S3
   \<and> 0 < MAX_AGE cfg_S3
   \<and> completed (update cfg_S3 2 1 unit_request (final scenario_S3_before))
   \<and> hits (classes (final (update cfg_S3 2 1 unit_request (final scenario_S3_before))) ! 0) ! 2
       = hits (classes (final scenario_S3_before) ! 0) ! 2 + 1
   \<and> lastLastHitAge (tags (final (update cfg_S3 2 1 unit_request (final scenario_S3_before))) ! 0)
       = lastHitAge (tags (final scenario_S3_before) ! 0)
   \<and> lastHitAge (tags (final (update cfg_S3 2 1 unit_request (final scenario_S3_before))) ! 0) = 2"
proof -
  let ?s = "final scenario_S3_before"
  have h: "indices ?s 1 = Some 0" "tag_id (tags ?s ! 0) = 1" "0 < length (tags ?s)"
    "nextReconfiguration ?s \<noteq> 1"
    "getClassId cfg_S3 (tags ?s ! 0) < length (classes ?s)"
    "length (hits (classes ?s ! getClassId cfg_S3 (tags ?s ! 0))) = MAX_AGE cfg_S3"
    "0 < MAX_AGE cfg_S3"
    by code_simp+
  have v: "getClassId cfg_S3 (tags ?s ! 0) = 0" "fst (getAge cfg_S3 ?s (tags ?s ! 0)) = 2"
    by code_simp+
  from update_hit [of ?s 1 0 cfg_S3 2 unit_request] h
  obtain s' where "update cfg_S3 2 1 unit_request ?s = Inr s'"
    and "hits (classes s' ! getClassId cfg_S3 (tags ?s ! 0)) ! fst (getAge cfg_S3 ?s (tags ?s ! 0))
         = hits (classes ?s ! getClassId cfg_S3 (tags ?s ! 0)) ! fst (getAge cfg_S3 ?s (tags ?s ! 0)) + 1"
    and "lastLastHitAge (tags s' ! 0) = lastHitAge (tags ?s ! 0)"
    and "lastHitAge (tags s' ! 0) = fst (getAge cfg_S3 ?s (tags ?s ! 0))"
    by blast
  with h v show ?thesis by (simp add: completed_def final_def)
qed

theorem update_hit_counterexample:
  "completed scenario_S3
   \<and> timestamp (final scenario_S3) = 3
   \<and> hits_at 1 (final scenario_S3) = [0, 0, 0, 0]
   \<and> hits_at 2 (final scenario_S3) = [1, 0, 0, 0]
   \<and> indices (final scenario_S3) 1 = Some 0
   \<and> hits (classes (final scenario_S3) ! getClassId cfg_S3 (tags (final scenario_S3) ! 0)) ! 1 \<noteq> 1
   \<and> hits (classes (final scenario_S3)
              ! getClassId cfg_S3 (tags (final scenario_S3_before) ! 0)) ! 1 \<noteq> 1"
proof -
  have "completed scenario_S3" by code_simp
  moreover have "timestamp (final scenario_S3) = 3" by code_simp
  moreover have "hits_at 1 (final scenario_S3) = [0, 0, 0, 0]" by code_simp
  moreover have "hits_at 2 (final scenario_S3) = [1, 0, 0, 0]" by code_simp
  moreover have "indices (final scenario_S3) 1 = Some 0" by code_simp
  moreover have
    "hits (classes (final scenario_S3) ! getClassId cfg_S3 (tags (final scenario_S3) ! 0)) ! 1 = 0"
    by code_simp
  moreover have
    "hits (classes (final scenario_S3)
              ! getClassId cfg_S3 (tags (final scenario_S3_before) ! 0)) ! 1 = 0"
    by code_simp
  ultimately show ?thesis by simp
qed

end
